theory Spec2Isabelle
  imports Complex_Main "HOL-Library.Word" "HOL-Library.Char_ord" "HOL-Library.List_Lexorder"
begin

section \<open>Arrays and pixel values\<close>

text \<open>
  An array is its shape together with its elements in row-major (C) order, as
  \<^verbatim>\<open>ravel()\<close> lists them. A scalar array has the empty shape and one element.
\<close>

type_synonym shape = "nat list"

record 'a nd =
  nd_shape :: shape
  nd_data :: "'a list"

definition wf_nd :: "'a nd \<Rightarrow> bool" where
  "wf_nd x = (length (nd_data x) = prod_list (nd_shape x))"

text \<open>
  A floating-point element is NaN, an infinity, or a finite value; every finite binary
  float is a rational number, and comparisons between floats are exact.
\<close>

datatype fval = NaN | NInf | Fin rat | PInf

text \<open>
  The arrays of \<^verbatim>\<open>dtype.kind\<close> \<^verbatim>\<open>'i'\<close> or \<^verbatim>\<open>'u'\<close> (integer elements, as
  unbounded integers: the width of the dtype plays no part before the cast) and of kind
  \<^verbatim>\<open>'f'\<close> (float elements). Boolean, complex, string and object arrays are not pixel
  data and are left out of the model.
\<close>

datatype ndarray = IntArr "int nd" | FloatArr "fval nd"

definition arr_shape :: "ndarray \<Rightarrow> shape" where
  "arr_shape img = (case img of IntArr x \<Rightarrow> nd_shape x | FloatArr x \<Rightarrow> nd_shape x)"

definition arr_size :: "ndarray \<Rightarrow> nat" where
  "arr_size img = (case img of IntArr x \<Rightarrow> length (nd_data x) | FloatArr x \<Rightarrow> length (nd_data x))"

definition is_float :: "ndarray \<Rightarrow> bool" where
  "is_float img = (case img of IntArr x \<Rightarrow> False | FloatArr x \<Rightarrow> True)"

datatype error =
    ValueError
  | KeyError
  | IcolorNotFound "string list"
  | UnexpectedFormat string
  | TooFewFrames nat
  | LibraryError string

text \<open>
  What numpy leaves to the floating-point format and to the hardware: the rounding of an
  exact product to the array's float type (which may overflow to an infinity), and the
  byte produced by casting NaN, an infinity or an out-of-range value to \<^verbatim>\<open>uint8\<close>.
\<close>

record fp_env =
  mul_round :: "rat \<Rightarrow> fval"
  cast_invalid :: "fval \<Rightarrow> 8 word"

fun fle :: "fval \<Rightarrow> fval \<Rightarrow> bool" where
  "fle NaN _ = False"
| "fle _ NaN = False"
| "fle NInf _ = True"
| "fle _ PInf = True"
| "fle (Fin a) (Fin b) = (a \<le> b)"
| "fle _ _ = False"

fun flt :: "fval \<Rightarrow> fval \<Rightarrow> bool" where
  "flt NaN _ = False"
| "flt _ NaN = False"
| "flt PInf _ = False"
| "flt _ NInf = False"
| "flt (Fin a) (Fin b) = (a < b)"
| "flt _ _ = True"

text \<open>\<^verbatim>\<open>np.fmax\<close>: the larger operand, a NaN operand being ignored.\<close>

definition fmax :: "fval \<Rightarrow> fval \<Rightarrow> fval" where
  "fmax a b = (if a = NaN then b else if b = NaN then a else if fle a b then b else a)"

text \<open>\<^verbatim>\<open>np.maximum\<close> and \<^verbatim>\<open>np.minimum\<close>: a NaN operand is propagated.\<close>

definition fmaximum :: "fval \<Rightarrow> fval \<Rightarrow> fval" where
  "fmaximum a b = (if a = NaN \<or> b = NaN then NaN else if fle a b then b else a)"

definition fminimum :: "fval \<Rightarrow> fval \<Rightarrow> fval" where
  "fminimum a b = (if a = NaN \<or> b = NaN then NaN else if fle a b then a else b)"

text \<open>
  \<^verbatim>\<open>np.nanmax(x)\<close> is \<^verbatim>\<open>np.fmax.reduce\<close> over all elements; the reduction has no
  identity and raises ValueError on an array without elements. On an array of NaNs only
  it returns NaN.
\<close>

definition nanmax :: "fval list \<Rightarrow> error + fval" where
  "nanmax xs = (case xs of [] \<Rightarrow> Inl ValueError | x # rest \<Rightarrow> Inr (foldl fmax x rest))"

text \<open>\<^verbatim>\<open>x * 255.0\<close> on one element.\<close>

definition fmul255 :: "fp_env \<Rightarrow> fval \<Rightarrow> fval" where
  "fmul255 P v = (case v of Fin q \<Rightarrow> mul_round P (q * 255) | _ \<Rightarrow> v)"

text \<open>\<^verbatim>\<open>np.clip(x, 0, 255)\<close> on one element: \<^verbatim>\<open>minimum(maximum(x, 0), 255)\<close>.\<close>

definition clip_int :: "int \<Rightarrow> int" where
  "clip_int v = min (max v 0) 255"

definition clip_f :: "fval \<Rightarrow> fval" where
  "clip_f v = fminimum (fmaximum v (Fin 0)) (Fin 255)"

text \<open>
  \<^verbatim>\<open>astype(np.uint8)\<close>: an integer is reduced modulo 256; a float is truncated towards
  zero when the truncated value fits in a byte.
\<close>

definition truncate_rat :: "rat \<Rightarrow> int" where
  "truncate_rat q = (if 0 \<le> q then \<lfloor>q\<rfloor> else - \<lfloor>- q\<rfloor>)"

definition astype_uint8_int :: "int \<Rightarrow> 8 word" where
  "astype_uint8_int v = word_of_int v"

definition astype_uint8 :: "fp_env \<Rightarrow> fval \<Rightarrow> 8 word" where
  "astype_uint8 P v =
     (case v of
        Fin q \<Rightarrow> if - 1 < q \<and> q < 256 then word_of_int (truncate_rat q) else cast_invalid P v
      | _ \<Rightarrow> cast_invalid P v)"

text \<open>
  Lines 20 to 23 of \<^verbatim>\<open>_to_uint8\<close> on a float array: the array that reaches
  \<^verbatim>\<open>np.clip\<close>.
\<close>

definition scale_floats :: "fp_env \<Rightarrow> fval nd \<Rightarrow> error + fval nd" where
  "scale_floats P x =
     (case nanmax (nd_data x) of
        Inl e \<Rightarrow> Inl e
      | Inr m \<Rightarrow> Inr (if fle m (Fin 1) then x\<lparr>nd_data := map (fmul255 P) (nd_data x)\<rparr> else x))"

definition to_uint8 :: "fp_env \<Rightarrow> ndarray \<Rightarrow> error + (8 word) nd" where
  "to_uint8 P img =
     (case img of
        IntArr x \<Rightarrow>
          Inr \<lparr>nd_shape = nd_shape x,
               nd_data = map (\<lambda>v. astype_uint8_int (clip_int v)) (nd_data x)\<rparr>
      | FloatArr x \<Rightarrow>
          (case scale_floats P x of
             Inl e \<Rightarrow> Inl e
           | Inr y \<Rightarrow>
               Inr \<lparr>nd_shape = nd_shape y,
                    nd_data = map (\<lambda>v. astype_uint8 P (clip_f v)) (nd_data y)\<rparr>))"

text \<open>An exact platform, used to run the definitions: products are not rounded.\<close>

definition exact_fp :: fp_env where
  "exact_fp = \<lparr>mul_round = Fin, cast_invalid = (\<lambda>_. 0)\<rparr>"


section \<open>Shape correction and encoding\<close>



text \<open>
  \<^verbatim>\<open>x[:, :, 0]\<close>: the first entry along the last axis. It is reached only with a last
  axis of size 1, so the index 0 is in range.
\<close>

definition index_last0 :: "'a nd \<Rightarrow> 'a nd" where
  "index_last0 x =
     (case nd_shape x of
        [a, b, c] \<Rightarrow> \<lparr>nd_shape = [a, b], nd_data = map (\<lambda>n. nd_data x ! (n * c)) [0..<a * b]\<rparr>
      | _ \<Rightarrow> x)"

text \<open>
  \<^verbatim>\<open>np.transpose(x, (1, 2, 0))\<close>: entry \<open>(i, j, k)\<close> of the result is entry
  \<open>(k, i, j)\<close> of \<open>x\<close>. The result is listed in its own row-major order.
\<close>

definition transpose_120 :: "'a nd \<Rightarrow> 'a nd" where
  "transpose_120 x =
     (case nd_shape x of
        [c, h, w] \<Rightarrow>
          \<lparr>nd_shape = [h, w, c],
           nd_data = map (\<lambda>n. nd_data x ! (((n mod c) * h + n div (w * c)) * w + (n div c) mod w))
                         [0..<h * w * c]\<rparr>
      | _ \<Rightarrow> x)"

text \<open>Lines 30 to 36 of \<^verbatim>\<open>_save_jpg\<close>: the two shape corrections, in the source's order.\<close>

definition fix_shape :: "'a nd \<Rightarrow> 'a nd" where
  "fix_shape x =
     (let x1 = (if length (nd_shape x) = 3 \<and> nd_shape x ! 2 = 1 then index_last0 x else x)
      in if length (nd_shape x1) = 3 \<and> nd_shape x1 ! 0 \<in> {1, 3, 4}
            \<and> 32 < nd_shape x1 ! 1 \<and> 32 < nd_shape x1 ! 2
         then transpose_120 x1 else x1)"

section \<open>The container and the file system\<close>

text \<open>
  The keyword arguments of the \<^verbatim>\<open>loadmat\<close> call. The library documents
  \<^verbatim>\<open>squeeze_me\<close> as squeezing unit matrix dimensions, which is \<^verbatim>\<open>np.squeeze\<close>
  on the stored shape: every axis of size 1 is removed.
\<close>

record loadmat_kwargs =
  squeeze_me :: bool
  struct_as_record :: bool

definition extract_kwargs :: loadmat_kwargs where
  "extract_kwargs = \<lparr>squeeze_me = True, struct_as_record = False\<rparr>"



text \<open>
  A value stored under a key of the loaded dictionary: an object array (a cell array),
  a list or tuple, a numeric array, or an object that cannot be iterated, given by the
  name of its type. The elements of a frame collection are numeric arrays; nested cells,
  structs and strings inside a collection are left out of the model.
\<close>

datatype matval =
    ObjArray "ndarray nd"
  | PySeq "ndarray list"
  | NumArray ndarray
  | Opaque string

type_synonym mat_dict = "(string \<times> matval) list"

text \<open>
  The written files, in the order of writing: the name under the output directory and
  the array handed to the JPEG encoder.
\<close>

type_synonym files = "(string \<times> (8 word) nd) list"

text \<open>
  The outside world: what \<^verbatim>\<open>loadmat\<close> returns for a file name, whether creating the
  output directory fails, whether Pillow refuses an array, and the names in the input
  directory. A failure of the outside world is the message of its exception, which the
  model carries as a \<open>LibraryError\<close>. Every error of type \<open>error\<close> is a subclass of
  \<^verbatim>\<open>Exception\<close>.
\<close>

record io_env =
  loadmat :: "string \<Rightarrow> loadmat_kwargs \<Rightarrow> string + mat_dict"
  mkdir :: "string option"
  pil_save :: "(8 word) nd \<Rightarrow> string option"
  listdir :: "string list"

definition save_jpg :: "io_env \<Rightarrow> fp_env \<Rightarrow> ndarray \<Rightarrow> string \<Rightarrow> files \<Rightarrow> (error + unit) \<times> files" where
  "save_jpg E P img out_path fs =
     (case to_uint8 P img of
        Inl e \<Rightarrow> (Inl e, fs)
      | Inr x \<Rightarrow>
          (let y = fix_shape x
           in case pil_save E y of
                Some e \<Rightarrow> (Inl (LibraryError e), fs)
              | None \<Rightarrow> (Inr (), fs @ [(out_path, y)])))"

subsection \<open>Strings\<close>

text \<open>
  Names are ASCII strings. \<^verbatim>\<open>str.lower\<close> maps \<open>A\<close> to \<open>Z\<close> onto \<open>a\<close> to \<open>z\<close>
  and leaves every other character alone.
\<close>

definition lower_char :: "char \<Rightarrow> char" where
  "lower_char c = (if CHR ''A'' \<le> c \<and> c \<le> CHR ''Z'' then char_of (of_char c + (32 :: nat)) else c)"

definition lower :: "string \<Rightarrow> string" where
  "lower s = map lower_char s"

definition startswith :: "string \<Rightarrow> string \<Rightarrow> bool" where
  "startswith s p = (take (length p) s = p)"

definition endswith :: "string \<Rightarrow> string \<Rightarrow> bool" where
  "endswith s p = (length p \<le> length s \<and> drop (length s - length p) s = p)"

definition is_digit :: "char \<Rightarrow> bool" where
  "is_digit c = (CHR ''0'' \<le> c \<and> c \<le> CHR ''9'')"

definition newline :: char where
  "newline = CHR 0x0A"

fun str_nat :: "nat \<Rightarrow> string" where
  "str_nat n = (if n < 10 then [char_of (48 + n)] else str_nat (n div 10) @ [char_of (48 + n mod 10)])"

declare str_nat.simps [simp del]

fun find_key_case_insensitive :: "(string \<times> 'v) list \<Rightarrow> string \<Rightarrow> string option" where
  "find_key_case_insensitive [] wanted = None"
| "find_key_case_insensitive ((k, v) # d) wanted =
     (if lower k = lower wanted then Some k else find_key_case_insensitive d wanted)"

text \<open>
  \<^verbatim>\<open>CHIP_RE.match(name)\<close> for \<^verbatim>\<open>^Chip_(\d+)\.mat$\<close> with \<^verbatim>\<open>re.IGNORECASE\<close>: the
  result is group 1. The digits are followed by a dot, so the greedy \<^verbatim>\<open>\d+\<close> takes
  the whole run of digits; \<^verbatim>\<open>$\<close> matches at the end of the string and also just
  before a newline that ends the string.
\<close>

definition chip_re_match :: "string \<Rightarrow> string option" where
  "chip_re_match name =
     (let rest = drop 5 name; ds = takeWhile is_digit rest; suf = dropWhile is_digit rest
      in if lower (take 5 name) = ''chip_'' \<and> ds \<noteq> []
            \<and> (lower suf = ''.mat'' \<or> lower suf = ''.mat'' @ [newline])
         then Some ds else None)"

text \<open>
  \<^verbatim>\<open>Path.stem\<close>: the name up to its last dot, when that dot is neither the first nor
  the last character (pathlib up to Python 3.13).
\<close>

definition stem :: "string \<Rightarrow> string" where
  "stem name =
     (let k = length (takeWhile (\<lambda>c. c \<noteq> CHR ''.'') (rev name))
      in if k < length name \<and> 0 < length name - 1 - k \<and> 0 < k
         then take (length name - 1 - k) name else name)"

definition chip_id :: "string \<Rightarrow> string" where
  "chip_id name = (case chip_re_match name of Some g \<Rightarrow> g | None \<Rightarrow> stem name)"

definition out_name :: "string \<Rightarrow> nat \<Rightarrow> string" where
  "out_name cid i = ''imagem_'' @ cid @ ''_'' @ str_nat i @ ''.jpg''"

subsection \<open>Extraction\<close>

text \<open>\<^verbatim>\<open>list(ic)\<close> of an array with at least one axis: its entries along the first axis.\<close>

definition rows :: "'a nd \<Rightarrow> 'a nd list" where
  "rows x =
     (case nd_shape x of
        [] \<Rightarrow> []
      | n # rest \<Rightarrow>
          map (\<lambda>i. \<lparr>nd_shape = rest,
                    nd_data = take (prod_list rest) (drop (i * prod_list rest) (nd_data x))\<rparr>)
              [0..<n])"

text \<open>
  Lines 60 to 69: the value found under the key becomes a list of frames. Iterating a
  scalar array raises, which the source turns into its own error naming the type.
\<close>

definition frames_of :: "matval \<Rightarrow> error + ndarray list" where
  "frames_of ic =
     (case ic of
        ObjArray a \<Rightarrow> Inr (nd_data a)
      | PySeq xs \<Rightarrow> Inr xs
      | NumArray (IntArr x) \<Rightarrow>
          if nd_shape x = [] then Inl (UnexpectedFormat ''numpy.ndarray'')
          else Inr (map IntArr (rows x))
      | NumArray (FloatArr x) \<Rightarrow>
          if nd_shape x = [] then Inl (UnexpectedFormat ''numpy.ndarray'')
          else Inr (map FloatArr (rows x))
      | Opaque t \<Rightarrow> Inl (UnexpectedFormat t))"

text \<open>The loop of lines 79 to 82 over the indices it is given; an error ends it.\<close>

fun save_frames ::
  "io_env \<Rightarrow> fp_env \<Rightarrow> string \<Rightarrow> ndarray list \<Rightarrow> nat list \<Rightarrow> files \<Rightarrow> (error + unit) \<times> files" where
  "save_frames E P cid frames [] fs = (Inr (), fs)"
| "save_frames E P cid frames (i # rest) fs =
     (case save_jpg E P (frames ! (i - 1)) (out_name cid i) fs of
        (Inl e, fs') \<Rightarrow> (Inl e, fs')
      | (Inr u, fs') \<Rightarrow> save_frames E P cid frames rest fs')"

definition extract_from_mat :: "io_env \<Rightarrow> fp_env \<Rightarrow> string \<Rightarrow> files \<Rightarrow> (error + unit) \<times> files" where
  "extract_from_mat E P name fs =
     (case loadmat E name extract_kwargs of
        Inl e \<Rightarrow> (Inl (LibraryError e), fs)
      | Inr mat \<Rightarrow>
          (case find_key_case_insensitive mat ''Icolor'' of
             None \<Rightarrow> (Inl (IcolorNotFound (filter (\<lambda>k. \<not> startswith k ''__'') (map fst mat))), fs)
           | Some key \<Rightarrow>
               (case map_of mat key of
                  None \<Rightarrow> (Inl KeyError, fs)
                | Some ic \<Rightarrow>
                    (case frames_of ic of
                       Inl e \<Rightarrow> (Inl e, fs)
                     | Inr frames \<Rightarrow>
                         if length frames < 5 then (Inl (TooFewFrames (length frames)), fs)
                         else
                           (let cid = chip_id name
                            in case mkdir E of
                                 Some e \<Rightarrow> (Inl (LibraryError e), fs)
                               | None \<Rightarrow> save_frames E P cid frames [1..<6] fs)))))"

subsection \<open>The batch driver\<close>

datatype log_line =
    Ok_line string
  | Erro_line string error
  | Total_line nat
  | Saida_line

datatype fatal = SystemExit

text \<open>\<^verbatim>\<open>Path.glob("Chip_*.mat")\<close> on one name; the star may match nothing.\<close>

definition glob_match :: "string \<Rightarrow> bool" where
  "glob_match name = (startswith name ''Chip_'' \<and> endswith name ''.mat'' \<and> 9 \<le> length name)"

fun main_loop ::
  "io_env \<Rightarrow> fp_env \<Rightarrow> string list \<Rightarrow> nat \<times> log_line list \<times> files \<Rightarrow> nat \<times> log_line list \<times> files" where
  "main_loop E P [] st = st"
| "main_loop E P (mat_file # rest) (tot, lg, fs) =
     (case extract_from_mat E P mat_file fs of
        (Inr u, fs') \<Rightarrow> main_loop E P rest (tot + 5, lg @ [Ok_line mat_file], fs')
      | (Inl e, fs') \<Rightarrow> main_loop E P rest (tot, lg @ [Erro_line mat_file e], fs'))"

definition main :: "io_env \<Rightarrow> fp_env \<Rightarrow> files \<Rightarrow> fatal + (log_line list \<times> files)" where
  "main E P fs =
     (let mats = sort (filter glob_match (listdir E))
      in if mats = [] then Inl SystemExit
         else (case main_loop E P mats (0, [], fs) of
                 (tot, lg, fs') \<Rightarrow> Inr (lg @ [Total_line tot, Saida_line], fs')))"


text \<open>
  An outside world in which the directory can be created and Pillow accepts every array,
  used to run the definitions: it is given by what each file loads as and by the names
  in the input directory.
\<close>

definition accepting_io :: "(string \<Rightarrow> string + mat_dict) \<Rightarrow> string list \<Rightarrow> io_env" where
  "accepting_io files names =
     \<lparr>loadmat = (\<lambda>name kw. files name), mkdir = None, pil_save = (\<lambda>x. None), listdir = names\<rparr>"

section \<open>The properties, in the words of the specification\<close>

text \<open>
  The maximum of a float array once its NaNs are ignored: an element that is not NaN and
  that no other such element exceeds. Infinities count.
\<close>

definition is_nanmax :: "fval list \<Rightarrow> fval \<Rightarrow> bool" where
  "is_nanmax xs m = (m \<in> set xs \<and> m \<noteq> NaN \<and> (\<forall>v\<in>set xs. v \<noteq> NaN \<longrightarrow> fle v m))"

text \<open>The maximum over the finite elements only, if there is one.\<close>

definition finite_max :: "fval list \<Rightarrow> rat option" where
  "finite_max xs =
     (case concat (map (\<lambda>v. case v of Fin q \<Rightarrow> [q] | _ \<Rightarrow> []) xs) of
        [] \<Rightarrow> None
      | q # qs \<Rightarrow> Some (foldl max q qs))"

text \<open>The result when every value is multiplied by 255 before clipping, and when none is.\<close>

definition scaled_u8 :: "fp_env \<Rightarrow> fval nd \<Rightarrow> (8 word) nd" where
  "scaled_u8 P x =
     \<lparr>nd_shape = nd_shape x, nd_data = map (\<lambda>v. astype_uint8 P (clip_f (fmul255 P v))) (nd_data x)\<rparr>"

definition unscaled_u8 :: "fp_env \<Rightarrow> fval nd \<Rightarrow> (8 word) nd" where
  "unscaled_u8 P x =
     \<lparr>nd_shape = nd_shape x, nd_data = map (\<lambda>v. astype_uint8 P (clip_f v)) (nd_data x)\<rparr>"



text \<open>The line the driver prints for one file, and whether the file counts.\<close>

definition log_of :: "io_env \<Rightarrow> fp_env \<Rightarrow> string \<Rightarrow> log_line" where
  "log_of E P mat_file =
     (case fst (extract_from_mat E P mat_file []) of
        Inr u \<Rightarrow> Ok_line mat_file
      | Inl e \<Rightarrow> Erro_line mat_file e)"

definition succeeds :: "io_env \<Rightarrow> fp_env \<Rightarrow> string \<Rightarrow> bool" where
  "succeeds E P mat_file = (fst (extract_from_mat E P mat_file []) = Inr ())"


section \<open>Pixel format normalization\<close>

subsection \<open>Order of float values and the NaN-ignoring maximum\<close>

lemma fle_refl: "a \<noteq> NaN \<Longrightarrow> fle a a"
  by (cases a) auto

lemma fle_trans: "fle a b \<Longrightarrow> fle b c \<Longrightarrow> fle a c"
  by (cases a; cases b; cases c) auto

lemma fle_antisym: "fle a b \<Longrightarrow> fle b a \<Longrightarrow> a = b"
  by (cases a; cases b) auto

lemma fle_total: "a \<noteq> NaN \<Longrightarrow> b \<noteq> NaN \<Longrightarrow> fle a b \<or> fle b a"
  by (cases a; cases b) auto

lemma not_fle_flt: "a \<noteq> NaN \<Longrightarrow> b \<noteq> NaN \<Longrightarrow> (\<not> fle a b) = flt b a"
  by (cases a; cases b) auto

lemma foldl_fmax_NaN: "(\<forall>v\<in>set xs. v = NaN) \<Longrightarrow> foldl fmax a xs = a"
  by (induction xs arbitrary: a) (auto simp: fmax_def)

lemma foldl_fmax_max:
  "a \<noteq> NaN \<Longrightarrow>
     foldl fmax a xs \<noteq> NaN \<and> foldl fmax a xs \<in> set (a # xs) \<and>
     (\<forall>v\<in>set (a # xs). v \<noteq> NaN \<longrightarrow> fle v (foldl fmax a xs))"
proof (induction xs arbitrary: a)
  case Nil
  then show ?case by (simp add: fle_refl)
next
  case (Cons x xs)
  show ?case
  proof (cases "x = NaN")
    case True
    then have "fmax a x = a" using Cons.prems by (simp add: fmax_def)
    then show ?thesis using Cons.IH [OF Cons.prems] True by auto
  next
    case False
    let ?b = "fmax a x"
    have b: "?b \<noteq> NaN" "?b = a \<or> ?b = x" "fle a ?b" "fle x ?b"
      using Cons.prems False fle_total [of a x] by (auto simp: fmax_def fle_refl)
    from Cons.IH [OF b(1)] have ih: "foldl fmax ?b xs \<noteq> NaN"
      "foldl fmax ?b xs \<in> set (?b # xs)"
      "\<forall>v\<in>set (?b # xs). v \<noteq> NaN \<longrightarrow> fle v (foldl fmax ?b xs)" by auto
    have "fle ?b (foldl fmax ?b xs)" using ih(3) b(1) by simp
    then have "fle a (foldl fmax ?b xs)" "fle x (foldl fmax ?b xs)"
      using b(3,4) fle_trans by blast+
    then show ?thesis using ih b(2) by auto
  qed
qed

lemma nanmax_is_nanmax:
  assumes "is_nanmax xs m"
  shows "nanmax xs = Inr m"
  using assms
proof (induction xs)
  case Nil
  then show ?case by (simp add: is_nanmax_def)
next
  case (Cons x xs)
  show ?case
  proof (cases "x = NaN")
    case True
    then have m: "is_nanmax xs m" using Cons.prems by (auto simp: is_nanmax_def)
    then obtain y ys where xs: "xs = y # ys" by (cases xs) (auto simp: is_nanmax_def)
    have "foldl fmax x xs = foldl fmax y ys" using True xs by (simp add: fmax_def)
    then show ?thesis using Cons.IH [OF m] xs by (simp add: nanmax_def)
  next
    case False
    from foldl_fmax_max [OF False, of xs]
    have r: "foldl fmax x xs \<noteq> NaN" "foldl fmax x xs \<in> set (x # xs)"
      "\<forall>v\<in>set (x # xs). v \<noteq> NaN \<longrightarrow> fle v (foldl fmax x xs)" by auto
    have "fle m (foldl fmax x xs)" using r(3) Cons.prems by (auto simp: is_nanmax_def)
    moreover have "fle (foldl fmax x xs) m" using r(1,2) Cons.prems by (auto simp: is_nanmax_def)
    ultimately have "foldl fmax x xs = m" using fle_antisym by blast
    then show ?thesis by (simp add: nanmax_def)
  qed
qed


lemma is_nanmax_nonempty: "is_nanmax xs m \<Longrightarrow> xs \<noteq> []"
  by (auto simp: is_nanmax_def)


lemma exists_nanmax: "v \<in> set xs \<Longrightarrow> v \<noteq> NaN \<Longrightarrow> \<exists>m. is_nanmax xs m"
proof (induction xs arbitrary: v)
  case Nil
  then show ?case by simp
next
  case (Cons x xs)
  show ?case
  proof (cases "\<exists>w\<in>set xs. w \<noteq> NaN")
    case False
    then have "is_nanmax (x # xs) v" using Cons.prems by (auto simp: is_nanmax_def fle_refl)
    then show ?thesis ..
  next
    case True
    then obtain w where "w \<in> set xs" "w \<noteq> NaN" by blast
    from Cons.IH [OF this] obtain m where m: "is_nanmax xs m" ..
    show ?thesis
    proof (cases "x = NaN \<or> fle x m")
      case True
      then have "is_nanmax (x # xs) m" using m by (auto simp: is_nanmax_def)
      then show ?thesis ..
    next
      case False
      then have "fle m x" using m fle_total [of x m] by (auto simp: is_nanmax_def)
      then have "is_nanmax (x # xs) x" using m False
        by (auto simp: is_nanmax_def fle_refl intro: fle_trans)
      then show ?thesis ..
    qed
  qed
qed

lemma nanmax_elem_le:
  assumes "nanmax xs = Inr m" "v \<in> set xs" "v \<noteq> NaN"
  shows "fle v m"
proof -
  from exists_nanmax [OF assms(2,3)] obtain m' where m': "is_nanmax xs m'" ..
  then have "nanmax xs = Inr m'" by (rule nanmax_is_nanmax)
  then have "m' = m" using assms(1) by simp
  then show ?thesis using m' assms(2,3) by (simp add: is_nanmax_def)
qed

lemma nanmax_total: "xs \<noteq> [] \<Longrightarrow> \<exists>m. nanmax xs = Inr m"
  by (cases xs) (auto simp: nanmax_def)

lemma nanmax_empty: "nanmax xs = Inl e \<longleftrightarrow> xs = [] \<and> e = ValueError"
  by (cases xs) (auto simp: nanmax_def)

lemma clip_f_low: "flt v (Fin 0) \<Longrightarrow> clip_f v = Fin 0"
  by (cases v) (auto simp: clip_f_def fmaximum_def fminimum_def)

lemma clip_f_high: "flt (Fin 255) v \<Longrightarrow> clip_f v = Fin 255"
  by (cases v) (auto simp: clip_f_def fmaximum_def fminimum_def)

lemma astype_uint8_0: "astype_uint8 P (Fin 0) = 0"
  by (simp add: astype_uint8_def truncate_rat_def)

lemma astype_uint8_255: "astype_uint8 P (Fin 255) = 255"
  by (simp add: astype_uint8_def truncate_rat_def)

lemma clip_int_id: "0 \<le> v \<Longrightarrow> v \<le> 255 \<Longrightarrow> clip_int v = v"
  by (simp add: clip_int_def)

lemma uint_byte: "0 \<le> v \<Longrightarrow> v \<le> 255 \<Longrightarrow> uint (word_of_int v :: 8 word) = v"
  by (simp add: uint_word_of_int)

lemma unat_byte: "unat (w :: 8 word) \<le> 255"
  using unsigned_less [of w, where 'a = nat] by simp

lemma scale_floats_max:
  assumes "is_nanmax (nd_data x) m"
  shows "scale_floats P x = Inr (if fle m (Fin 1) then x\<lparr>nd_data := map (fmul255 P) (nd_data x)\<rparr> else x)"
  using nanmax_is_nanmax [OF assms] by (simp add: scale_floats_def)

lemma scale_floats_length:
  "scale_floats P x = Inr y \<Longrightarrow> nd_shape y = nd_shape x \<and> length (nd_data y) = length (nd_data x)"
  by (auto simp: scale_floats_def split: sum.splits if_splits)

lemma scale_floats_total: "nd_data x \<noteq> [] \<Longrightarrow> \<exists>y. scale_floats P x = Inr y"
  using nanmax_total [of "nd_data x"] by (auto simp: scale_floats_def)

lemma scale_floats_error: "scale_floats P x = Inl e \<longleftrightarrow> nd_data x = [] \<and> e = ValueError"
  by (cases "nd_data x") (auto simp: scale_floats_def nanmax_def)

lemma scale_floats_big:
  assumes "scale_floats P x = Inr y" "i < length (nd_data x)" "flt (Fin 255) (nd_data x ! i)"
  shows "nd_data y ! i = nd_data x ! i"
proof -
  let ?v = "nd_data x ! i"
  from assms(1) obtain m where m: "nanmax (nd_data x) = Inr m"
    by (auto simp: scale_floats_def split: sum.splits)
  have v1: "?v \<in> set (nd_data x)" using assms(2) by simp
  have v2: "?v \<noteq> NaN" using assms(3) by (cases ?v) auto
  note v = v1 v2
  have "fle ?v m" by (rule nanmax_elem_le [OF m v])
  then have "\<not> fle m (Fin 1)" using assms(3) by (cases ?v; cases m) auto
  then show ?thesis using assms(1) m by (auto simp: scale_floats_def)
qed

subsection \<open>Scaling of float arrays\<close>

text \<open>
  C1, as the specification words it, reads the maximum over the finite values: a float
  array whose finite values are all at most 1.0 would be multiplied by 255. The array
  \<open>[0.5, +inf]\<close> has the finite maximum 0.5, but \<^verbatim>\<open>np.nanmax\<close> ignores only NaN and
  returns \<open>+inf\<close>, so the array is not scaled: 0.5 becomes 0 and not 127.
\<close>

theorem finite_max_scaling_counterexample:
  "finite_max [Fin (1/2), PInf] = Some (1/2) \<and> (1/2 :: rat) \<le> 1 \<and>
   to_uint8 exact_fp (FloatArr \<lparr>nd_shape = [2], nd_data = [Fin (1/2), PInf]\<rparr>)
     \<noteq> Inr (scaled_u8 exact_fp \<lparr>nd_shape = [2], nd_data = [Fin (1/2), PInf]\<rparr>)"
  by code_simp

text \<open>
  C1, amended: the maximum is taken over the elements that are not NaN, infinities
  included. For every float array that has such a maximum \<open>m\<close>: when \<open>m \<le> 1.0\<close> every
  value is multiplied by 255 before clipping, and when \<open>m > 1.0\<close> (as for \<open>+inf\<close>) no
  value is scaled.
\<close>

theorem to_uint8_scales_by_nanmax:
  assumes "is_nanmax (nd_data x) m"
  shows "(fle m (Fin 1) \<longrightarrow> to_uint8 P (FloatArr x) = Inr (scaled_u8 P x)) \<and>
         (flt (Fin 1) m \<longrightarrow> to_uint8 P (FloatArr x) = Inr (unscaled_u8 P x))"
proof -
  have m: "m \<noteq> NaN" using assms by (simp add: is_nanmax_def)
  have "flt (Fin 1) m \<Longrightarrow> \<not> fle m (Fin 1)"
    using not_fle_flt [of m "Fin 1"] m by simp
  then show ?thesis
    using scale_floats_max [OF assms, of P]
    by (auto simp: to_uint8_def scaled_u8_def unscaled_u8_def)
qed

theorem to_uint8_scales_by_nanmax_witness:
  "is_nanmax [Fin (1/2), NaN, Fin 1] (Fin 1) \<and> fle (Fin 1) (Fin 1) \<and>
   to_uint8 exact_fp (FloatArr \<lparr>nd_shape = [3], nd_data = [Fin (1/2), NaN, Fin 1]\<rparr>)
     = Inr \<lparr>nd_shape = [3], nd_data = [127, 0, 255]\<rparr> \<and>
   is_nanmax [Fin (1/2), PInf] PInf \<and> flt (Fin 1) PInf \<and>
   to_uint8 exact_fp (FloatArr \<lparr>nd_shape = [2], nd_data = [Fin (1/2), PInf]\<rparr>)
     = Inr \<lparr>nd_shape = [2], nd_data = [0, 255]\<rparr>"
proof -
  have a: "is_nanmax (nd_data \<lparr>nd_shape = [3::nat], nd_data = [Fin (1/2), NaN, Fin 1]\<rparr>) (Fin 1)"
    by (simp add: is_nanmax_def)
  have b: "is_nanmax (nd_data \<lparr>nd_shape = [2::nat], nd_data = [Fin (1/2), PInf]\<rparr>) PInf"
    by (simp add: is_nanmax_def)
  have sa: "scaled_u8 exact_fp \<lparr>nd_shape = [3], nd_data = [Fin (1/2), NaN, Fin 1]\<rparr>
      = \<lparr>nd_shape = [3], nd_data = [127, 0, 255]\<rparr>"
    by code_simp
  have sb: "unscaled_u8 exact_fp \<lparr>nd_shape = [2], nd_data = [Fin (1/2), PInf]\<rparr>
      = \<lparr>nd_shape = [2], nd_data = [0, 255]\<rparr>"
    by code_simp
  show ?thesis
    using to_uint8_scales_by_nanmax [OF a, of exact_fp] to_uint8_scales_by_nanmax [OF b, of exact_fp] a b sa sb
    by simp
qed

subsection \<open>Clipping and the cast to bytes\<close>

text \<open>
  C7: an integer array whose values all lie in \<open>[0, 255]\<close> comes back with the same
  values as bytes and the same shape. A value outside the interval is saturated, not
  wrapped: an integer below 0 gives 0 and one above 255 gives 255; for a float array the
  same holds of every value that reaches the clip (below 0, \<open>-inf\<close> included, gives 0;
  above 255, \<open>+inf\<close> included, gives 255), and an input value above 255 always gives 255.
\<close>

theorem to_uint8_roundtrip_and_saturation:
  "((\<forall>v\<in>set (nd_data x). 0 \<le> v \<and> v \<le> 255) \<longrightarrow>
      (\<exists>r. to_uint8 P (IntArr x) = Inr r \<and> nd_shape r = nd_shape x \<and> map uint (nd_data r) = nd_data x)) \<and>
   (\<forall>i<length (nd_data x). \<exists>r. to_uint8 P (IntArr x) = Inr r \<and>
      (nd_data x ! i < 0 \<longrightarrow> nd_data r ! i = 0) \<and> (255 < nd_data x ! i \<longrightarrow> nd_data r ! i = 255)) \<and>
   (\<forall>y. scale_floats P z = Inr y \<longrightarrow>
      (\<exists>r. to_uint8 P (FloatArr z) = Inr r \<and>
         (\<forall>i<length (nd_data y).
            (flt (nd_data y ! i) (Fin 0) \<longrightarrow> nd_data r ! i = 0) \<and>
            (flt (Fin 255) (nd_data y ! i) \<longrightarrow> nd_data r ! i = 255)) \<and>
         (\<forall>i<length (nd_data z). flt (Fin 255) (nd_data z ! i) \<longrightarrow> nd_data r ! i = 255)))"
proof (intro conjI allI impI)
  assume r: "\<forall>v\<in>set (nd_data x). 0 \<le> v \<and> v \<le> 255"
  have "map uint (map (\<lambda>v. astype_uint8_int (clip_int v)) (nd_data x)) = nd_data x"
    using r by (induction "nd_data x" arbitrary: x) (auto simp: astype_uint8_int_def clip_int_id uint_byte map_idI)
  then show "\<exists>r. to_uint8 P (IntArr x) = Inr r \<and> nd_shape r = nd_shape x \<and> map uint (nd_data r) = nd_data x"
    by (simp add: to_uint8_def)
next
  fix i assume "i < length (nd_data x)"
  then show "\<exists>r. to_uint8 P (IntArr x) = Inr r \<and>
      (nd_data x ! i < 0 \<longrightarrow> nd_data r ! i = 0) \<and> (255 < nd_data x ! i \<longrightarrow> nd_data r ! i = 255)"
    by (simp add: to_uint8_def astype_uint8_int_def clip_int_def)
next
  fix y assume y: "scale_floats P z = Inr y"
  let ?r = "\<lparr>nd_shape = nd_shape y, nd_data = map (\<lambda>v. astype_uint8 P (clip_f v)) (nd_data y)\<rparr>"
  have 1: "to_uint8 P (FloatArr z) = Inr ?r" using y by (simp add: to_uint8_def)
  have 2: "\<forall>i<length (nd_data y).
            (flt (nd_data y ! i) (Fin 0) \<longrightarrow> nd_data ?r ! i = 0) \<and>
            (flt (Fin 255) (nd_data y ! i) \<longrightarrow> nd_data ?r ! i = 255)"
    by (simp add: clip_f_low clip_f_high astype_uint8_0 astype_uint8_255)
  have 3: "\<forall>i<length (nd_data z). flt (Fin 255) (nd_data z ! i) \<longrightarrow> nd_data ?r ! i = 255"
    using scale_floats_big [OF y] scale_floats_length [OF y] 2 by auto
  show "\<exists>r. to_uint8 P (FloatArr z) = Inr r \<and>
         (\<forall>i<length (nd_data y).
            (flt (nd_data y ! i) (Fin 0) \<longrightarrow> nd_data r ! i = 0) \<and>
            (flt (Fin 255) (nd_data y ! i) \<longrightarrow> nd_data r ! i = 255)) \<and>
         (\<forall>i<length (nd_data z). flt (Fin 255) (nd_data z ! i) \<longrightarrow> nd_data r ! i = 255)"
    using 1 2 3 by blast
qed

theorem to_uint8_roundtrip_and_saturation_witness:
  "list_all (\<lambda>v. 0 \<le> v \<and> v \<le> 255) [0, 77, 255 :: int] \<and>
   to_uint8 exact_fp (IntArr \<lparr>nd_shape = [3], nd_data = [0, 77, 255]\<rparr>)
     = Inr \<lparr>nd_shape = [3], nd_data = [0, 77, 255]\<rparr> \<and>
   to_uint8 exact_fp (IntArr \<lparr>nd_shape = [2], nd_data = [256, - 1]\<rparr>)
     = Inr \<lparr>nd_shape = [2], nd_data = [255, 0]\<rparr> \<and>
   (word_of_int 256 :: 8 word) = 0 \<and> (word_of_int (- 1) :: 8 word) = 255 \<and>
   scale_floats exact_fp \<lparr>nd_shape = [3], nd_data = [Fin 300, Fin (- 2), NInf]\<rparr>
     = Inr \<lparr>nd_shape = [3], nd_data = [Fin 300, Fin (- 2), NInf]\<rparr> \<and>
   flt (Fin 255) (Fin 300) \<and> flt (Fin (- 2)) (Fin 0) \<and> flt NInf (Fin 0) \<and>
   to_uint8 exact_fp (FloatArr \<lparr>nd_shape = [3], nd_data = [Fin 300, Fin (- 2), NInf]\<rparr>)
     = Inr \<lparr>nd_shape = [3], nd_data = [255, 0, 0]\<rparr>"
proof -
  have a: "to_uint8 exact_fp (IntArr \<lparr>nd_shape = [3], nd_data = [0, 77, 255]\<rparr>)
     = Inr \<lparr>nd_shape = [3], nd_data = [0, 77, 255]\<rparr>"
    by code_simp
  have b: "to_uint8 exact_fp (IntArr \<lparr>nd_shape = [2], nd_data = [256, - 1]\<rparr>)
     = Inr \<lparr>nd_shape = [2], nd_data = [255, 0]\<rparr>"
    by code_simp
  have c: "scale_floats exact_fp \<lparr>nd_shape = [3], nd_data = [Fin 300, Fin (- 2), NInf]\<rparr>
     = Inr \<lparr>nd_shape = [3], nd_data = [Fin 300, Fin (- 2), NInf]\<rparr>"
    by code_simp
  have d: "to_uint8 exact_fp (FloatArr \<lparr>nd_shape = [3], nd_data = [Fin 300, Fin (- 2), NInf]\<rparr>)
     = Inr \<lparr>nd_shape = [3], nd_data = [255, 0, 0]\<rparr>"
    by code_simp
  show ?thesis
    using to_uint8_roundtrip_and_saturation
      [of "\<lparr>nd_shape = [3], nd_data = [0, 77, 255]\<rparr>" exact_fp
          "\<lparr>nd_shape = [3], nd_data = [Fin 300, Fin (- 2), NInf]\<rparr>"] a b c d
    by simp
qed

subsection \<open>The result of the conversion\<close>

text \<open>
  C9, as stated, promises a result for every input array. An empty float array, which
  is what an empty MATLAB matrix loads as, has no maximum: \<^verbatim>\<open>np.nanmax\<close> raises
  ValueError and there is no result.
\<close>

theorem to_uint8_empty_float_counterexample:
  "to_uint8 exact_fp (FloatArr \<lparr>nd_shape = [0, 0], nd_data = []\<rparr>) = Inl ValueError"
  by code_simp

text \<open>
  C9, amended: the conversion raises exactly on a float array without elements, and the
  error is ValueError. On every other array (every integer array, every float array
  with at least one element) it returns an array of bytes, each in \<open>[0, 255]\<close>, with
  the shape and the number of elements of the input.
\<close>

theorem to_uint8_returns_bytes_of_same_shape:
  "(to_uint8 P img = Inl e \<longleftrightarrow> is_float img \<and> arr_size img = 0 \<and> e = ValueError) \<and>
   (\<not> (is_float img \<and> arr_size img = 0) \<longrightarrow>
      (\<exists>r. to_uint8 P img = Inr r \<and> nd_shape r = arr_shape img \<and>
           length (nd_data r) = arr_size img \<and> (\<forall>w\<in>set (nd_data r). unat w \<le> 255)))"
proof (cases img)
  case (IntArr x)
  then show ?thesis by (simp add: to_uint8_def is_float_def arr_size_def arr_shape_def unat_byte)
next
  case (FloatArr x)
  show ?thesis
  proof (cases "nd_data x = []")
    case True
    then have "scale_floats P x = Inl ValueError" by (simp add: scale_floats_error)
    then show ?thesis using True FloatArr
      by (auto simp: to_uint8_def is_float_def arr_size_def)
  next
    case False
    from scale_floats_total [OF False] obtain y where y: "scale_floats P x = Inr y" ..
    from scale_floats_length [OF y] show ?thesis using False FloatArr y
      by (simp add: to_uint8_def is_float_def arr_size_def arr_shape_def unat_byte)
  qed
qed

theorem to_uint8_returns_bytes_of_same_shape_witness:
  "\<not> (is_float (FloatArr \<lparr>nd_shape = [1, 2], nd_data = [Fin 3, NaN]\<rparr>) \<and>
       arr_size (FloatArr \<lparr>nd_shape = [1, 2], nd_data = [Fin 3, NaN]\<rparr>) = 0) \<and>
   (\<exists>r. to_uint8 exact_fp (FloatArr \<lparr>nd_shape = [1, 2], nd_data = [Fin 3, NaN]\<rparr>) = Inr r \<and>
        nd_shape r = arr_shape (FloatArr \<lparr>nd_shape = [1, 2], nd_data = [Fin 3, NaN]\<rparr>) \<and>
        length (nd_data r) = arr_size (FloatArr \<lparr>nd_shape = [1, 2], nd_data = [Fin 3, NaN]\<rparr>) \<and>
        (\<forall>w\<in>set (nd_data r). unat w \<le> 255))"
proof -
  have h: "\<not> (is_float (FloatArr \<lparr>nd_shape = [1, 2], nd_data = [Fin 3, NaN]\<rparr>) \<and>
       arr_size (FloatArr \<lparr>nd_shape = [1, 2], nd_data = [Fin 3, NaN]\<rparr>) = 0)"
    by (simp add: arr_size_def)
  show ?thesis
    using to_uint8_returns_bytes_of_same_shape
      [of exact_fp "FloatArr \<lparr>nd_shape = [1, 2], nd_data = [Fin 3, NaN]\<rparr>" ValueError] h
    by blast
qed


section \<open>Shape correction\<close>



lemma idx3_mod: "k < c \<Longrightarrow> ((i * w + j) * c + k) mod c = (k :: nat)"
  by simp

lemma idx3_div: "k < c \<Longrightarrow> ((i * w + j) * c + k) div c = i * w + (j :: nat)"
  by simp



lemma transpose_120_shape: "nd_shape x = [c, h, w] \<Longrightarrow> nd_shape (transpose_120 x) = [h, w, c]"
  by (simp add: transpose_120_def)


lemma transpose_120_unit:
  assumes "nd_shape x = [1, h, w]" "wf_nd x"
  shows "transpose_120 x = \<lparr>nd_shape = [h, w, 1], nd_data = nd_data x\<rparr>"
proof -
  have "length (nd_data x) = h * w" using assms by (simp add: wf_nd_def)
  then have "map (\<lambda>n. nd_data x ! n) [0..<h * w] = nd_data x"
    by (metis map_nth)
  then show ?thesis using assms(1) by (simp add: transpose_120_def)
qed



text \<open>
  C10: the squeeze of a last axis of size 1 runs before the transposition, and nothing
  squeezes after it. So an array of shape \<open>(1, H, W)\<close> with \<open>H > 32\<close> and \<open>W > 32\<close>
  reaches the encoder with the three-dimensional shape \<open>(H, W, 1)\<close>, not as \<open>(H, W)\<close>;
  its elements keep their order.
\<close>
theorem save_jpg_keeps_leading_unit_axis_as_channel:
  assumes "arr_shape img = [1, h, w]" "32 < h" "32 < w" "to_uint8 P img = Inr x"
  shows "nd_shape (fix_shape x) = [h, w, 1] \<and> length (nd_shape (fix_shape x)) = 3 \<and>
         nd_shape (fix_shape x) \<noteq> [h, w] \<and>
         (wf_nd x \<longrightarrow> nd_data (fix_shape x) = nd_data x) \<and>
         save_jpg E P img out_path fs =
           (case pil_save E (fix_shape x) of
              Some e \<Rightarrow> (Inl (LibraryError e), fs)
            | None \<Rightarrow> (Inr (), fs @ [(out_path, fix_shape x)]))"
proof -
  have s: "nd_shape x = [1, h, w]"
    using assms(1,4) by (auto simp: to_uint8_def arr_shape_def split: ndarray.splits sum.splits dest: scale_floats_length)
  have f: "fix_shape x = transpose_120 x"
    using s assms(2,3) by (simp add: fix_shape_def Let_def)
  have 1: "nd_shape (fix_shape x) = [h, w, 1]" using f s by (simp add: transpose_120_shape)
  have 2: "wf_nd x \<longrightarrow> nd_data (fix_shape x) = nd_data x"
    using f transpose_120_unit [OF s] by simp
  show ?thesis using 1 2 assms(4) by (simp add: save_jpg_def Let_def)
qed

theorem save_jpg_keeps_leading_unit_axis_as_channel_witness:
  "arr_shape (IntArr \<lparr>nd_shape = [1, 33, 40], nd_data = replicate 1320 300\<rparr>) = [1, 33, 40] \<and>
   to_uint8 exact_fp (IntArr \<lparr>nd_shape = [1, 33, 40], nd_data = replicate 1320 300\<rparr>)
     = Inr \<lparr>nd_shape = [1, 33, 40], nd_data = replicate 1320 255\<rparr> \<and>
   nd_shape (fix_shape \<lparr>nd_shape = [1, 33, 40], nd_data = replicate 1320 (255 :: 8 word)\<rparr>) = [33, 40, 1] \<and>
   save_jpg (accepting_io (\<lambda>n. Inl ''no file'') []) exact_fp
       (IntArr \<lparr>nd_shape = [1, 33, 40], nd_data = replicate 1320 300\<rparr>) ''imagem_7_1.jpg'' []
     = (Inr (), [(''imagem_7_1.jpg'',
                  fix_shape \<lparr>nd_shape = [1, 33, 40], nd_data = replicate 1320 (255 :: 8 word)\<rparr>)])"
proof -
  let ?img = "IntArr \<lparr>nd_shape = [1, 33, 40], nd_data = replicate 1320 300\<rparr>"
  let ?x = "\<lparr>nd_shape = [1, 33, 40], nd_data = replicate 1320 (255 :: 8 word)\<rparr>"
  have s: "arr_shape ?img = [1, 33, 40]" by (simp add: arr_shape_def)
  have t: "to_uint8 exact_fp ?img = Inr ?x"
    by (simp add: to_uint8_def clip_int_def astype_uint8_int_def)
  have p: "pil_save (accepting_io (\<lambda>n. Inl ''no file'') []) (fix_shape ?x) = None"
    by (simp add: accepting_io_def)
  show ?thesis
    using save_jpg_keeps_leading_unit_axis_as_channel
      [OF s _ _ t, of "accepting_io (\<lambda>n. Inl ''no file'') []" "''imagem_7_1.jpg''" "[]"] s t p
    by simp
qed

section \<open>Key lookup and frame count\<close>














section \<open>The batch driver\<close>

lemma save_jpg_append:
  "save_jpg E P img p fs = (fst (save_jpg E P img p []), fs @ snd (save_jpg E P img p []))"
  by (simp add: save_jpg_def Let_def split: sum.splits option.splits)

lemma save_frames_append:
  "save_frames E P cid frames idx fs
     = (fst (save_frames E P cid frames idx []), fs @ snd (save_frames E P cid frames idx []))"
proof (induction idx arbitrary: fs)
  case Nil
  then show ?case by simp
next
  case (Cons i idx)
  let ?s = "save_jpg E P (frames ! (i - 1)) (out_name cid i) []"
  obtain r w where s: "?s = (r, w)" by (cases ?s)
  have sf: "save_jpg E P (frames ! (i - 1)) (out_name cid i) fs = (r, fs @ w)"
    using save_jpg_append [of E P "frames ! (i - 1)" "out_name cid i" fs] s by simp
  show ?case
  proof (cases r)
    case (Inl e)
    then show ?thesis using s sf by simp
  next
    case (Inr u)
    have "save_frames E P cid frames (i # idx) fs = save_frames E P cid frames idx (fs @ w)"
      using sf Inr by simp
    moreover have "save_frames E P cid frames (i # idx) [] = save_frames E P cid frames idx w"
      using s Inr by simp
    ultimately show ?thesis
      using Cons.IH [of "fs @ w"] Cons.IH [of w] by simp
  qed
qed

lemma extract_from_mat_append:
  "extract_from_mat E P name fs
     = (fst (extract_from_mat E P name []), fs @ snd (extract_from_mat E P name []))"
  using save_frames_append [of E P "chip_id name" _ "[1..<6]" fs]
  by (simp add: extract_from_mat_def Let_def split: sum.splits option.splits)

lemma main_loop_eq:
  "main_loop E P mats (tot, lg, fs) =
     (tot + 5 * length (filter (succeeds E P) mats),
      lg @ map (log_of E P) mats,
      fs @ concat (map (\<lambda>m. snd (extract_from_mat E P m [])) mats))"
proof (induction mats arbitrary: tot lg fs)
  case Nil
  then show ?case by simp
next
  case (Cons m mats)
  let ?x = "extract_from_mat E P m []"
  obtain r w where x: "?x = (r, w)" by (cases ?x)
  have xf: "extract_from_mat E P m fs = (r, fs @ w)"
    using extract_from_mat_append [of E P m fs] x by simp
  show ?case
  proof (cases r)
    case (Inl e)
    then show ?thesis using x xf Cons.IH [of tot "lg @ [Erro_line m e]" "fs @ w"]
      by (simp add: succeeds_def log_of_def)
  next
    case (Inr u)
    then show ?thesis using x xf Cons.IH [of "tot + 5" "lg @ [Ok_line m]" "fs @ w"]
      by (simp add: succeeds_def log_of_def)
  qed
qed

text \<open>
  C6: the driver's loop handles every file of its list, whatever happened to the files
  before it. A file on which extraction raises error \<open>e\<close> adds the line with its name
  and \<open>e\<close> and leaves the total alone; a file on which extraction succeeds adds its OK
  line and 5 to the total. So the log has one line per file, in order, and the total is 5
  times the number of files that succeeded; with at least one input file the driver ends
  normally with that log, the total line and the output line.
\<close>
theorem batch_driver_logs_and_counts:
  "main_loop E P mats (tot, lg, fs) =
     (tot + 5 * length (filter (succeeds E P) mats),
      lg @ map (log_of E P) mats,
      fs @ concat (map (\<lambda>m. snd (extract_from_mat E P m [])) mats)) \<and>
   (\<forall>m e. fst (extract_from_mat E P m []) = Inl e \<longrightarrow>
      log_of E P m = Erro_line m e \<and> \<not> succeeds E P m \<and>
      main_loop E P (m # mats) (tot, lg, fs)
        = main_loop E P mats (tot, lg @ [Erro_line m e], fs @ snd (extract_from_mat E P m []))) \<and>
   (\<forall>m. fst (extract_from_mat E P m []) = Inr () \<longrightarrow>
      log_of E P m = Ok_line m \<and> succeeds E P m \<and>
      main_loop E P (m # mats) (tot, lg, fs)
        = main_loop E P mats (tot + 5, lg @ [Ok_line m], fs @ snd (extract_from_mat E P m []))) \<and>
   (sort (filter glob_match (listdir E)) = mats \<and> mats \<noteq> [] \<longrightarrow>
      main E P fs =
        Inr (map (log_of E P) mats
               @ [Total_line (5 * length (filter (succeeds E P) mats)), Saida_line],
             fs @ concat (map (\<lambda>m. snd (extract_from_mat E P m [])) mats)))"
proof (intro conjI allI impI)
  show "main_loop E P mats (tot, lg, fs) =
     (tot + 5 * length (filter (succeeds E P) mats),
      lg @ map (log_of E P) mats,
      fs @ concat (map (\<lambda>m. snd (extract_from_mat E P m [])) mats))"
    by (rule main_loop_eq)
next
  fix m e assume a: "fst (extract_from_mat E P m []) = Inl e"
  show "log_of E P m = Erro_line m e" using a by (simp add: log_of_def)
  show "\<not> succeeds E P m" using a by (simp add: succeeds_def)
  show "main_loop E P (m # mats) (tot, lg, fs)
        = main_loop E P mats (tot, lg @ [Erro_line m e], fs @ snd (extract_from_mat E P m []))"
    using a extract_from_mat_append [of E P m fs] by simp
next
  fix m assume a: "fst (extract_from_mat E P m []) = Inr ()"
  show "log_of E P m = Ok_line m" using a by (simp add: log_of_def)
  show "succeeds E P m" using a by (simp add: succeeds_def)
  show "main_loop E P (m # mats) (tot, lg, fs)
        = main_loop E P mats (tot + 5, lg @ [Ok_line m], fs @ snd (extract_from_mat E P m []))"
    using a extract_from_mat_append [of E P m fs] by simp
next
  assume "sort (filter glob_match (listdir E)) = mats \<and> mats \<noteq> []"
  then show "main E P fs =
        Inr (map (log_of E P) mats
               @ [Total_line (5 * length (filter (succeeds E P) mats)), Saida_line],
             fs @ concat (map (\<lambda>m. snd (extract_from_mat E P m [])) mats))"
    using main_loop_eq [of E P mats 0 "[]" fs] by (simp add: main_def Let_def)
qed

theorem batch_driver_logs_and_counts_witness:
  "sort (filter glob_match [''Chip_2.mat'', ''notes.txt'', ''Chip_1.mat'']) = [''Chip_1.mat'', ''Chip_2.mat''] \<and>
   main (accepting_io
           (\<lambda>n. if n = ''Chip_1.mat'' then Inr [(''other_var'', Opaque ''float'')]
                 else Inr [(''Icolor'', PySeq (replicate 5 (IntArr \<lparr>nd_shape = [1, 1], nd_data = [9]\<rparr>)))])
           [''Chip_2.mat'', ''notes.txt'', ''Chip_1.mat''])
        exact_fp []
     = Inr ([Erro_line ''Chip_1.mat'' (IcolorNotFound [''other_var'']), Ok_line ''Chip_2.mat'',
             Total_line 5, Saida_line],
            [(''imagem_2_1.jpg'', \<lparr>nd_shape = [1, 1], nd_data = [9]\<rparr>),
             (''imagem_2_2.jpg'', \<lparr>nd_shape = [1, 1], nd_data = [9]\<rparr>),
             (''imagem_2_3.jpg'', \<lparr>nd_shape = [1, 1], nd_data = [9]\<rparr>),
             (''imagem_2_4.jpg'', \<lparr>nd_shape = [1, 1], nd_data = [9]\<rparr>),
             (''imagem_2_5.jpg'', \<lparr>nd_shape = [1, 1], nd_data = [9]\<rparr>)])"
proof -
  let ?ld = "\<lambda>n. if n = ''Chip_1.mat'' then Inr [(''other_var'', Opaque ''float'')]
                 else Inr [(''Icolor'', PySeq (replicate 5 (IntArr \<lparr>nd_shape = [1, 1], nd_data = [9]\<rparr>)))]"
  let ?E = "accepting_io ?ld [''Chip_2.mat'', ''notes.txt'', ''Chip_1.mat'']"
  let ?mats = "[''Chip_1.mat'', ''Chip_2.mat'']"
  have s0: "sort (filter glob_match [''Chip_2.mat'', ''notes.txt'', ''Chip_1.mat'']) = ?mats"
    by code_simp
  have s: "sort (filter glob_match (listdir ?E)) = ?mats \<and> ?mats \<noteq> []"
    using s0 by (simp add: accepting_io_def)
  have x1: "extract_from_mat ?E exact_fp ''Chip_1.mat'' [] = (Inl (IcolorNotFound [''other_var'']), [])"
    by code_simp
  have x2: "extract_from_mat ?E exact_fp ''Chip_2.mat'' []
      = (Inr (), [(''imagem_2_1.jpg'', \<lparr>nd_shape = [1, 1], nd_data = [9]\<rparr>),
             (''imagem_2_2.jpg'', \<lparr>nd_shape = [1, 1], nd_data = [9]\<rparr>),
             (''imagem_2_3.jpg'', \<lparr>nd_shape = [1, 1], nd_data = [9]\<rparr>),
             (''imagem_2_4.jpg'', \<lparr>nd_shape = [1, 1], nd_data = [9]\<rparr>),
             (''imagem_2_5.jpg'', \<lparr>nd_shape = [1, 1], nd_data = [9]\<rparr>)])"
    by code_simp
  show ?thesis
    using batch_driver_logs_and_counts [of ?E exact_fp ?mats 0 "[]" "[]"] s s0 x1 x2
    by (simp add: log_of_def succeeds_def)
qed

section \<open>The chip identifier\<close>

















section \<open>The five output files\<close>









section \<open>Container loading\<close>



end
